theory Spec2Isabelle
  imports Main "HOL-Library.Sublist"
begin

section \<open>The workload data read by the audit filter\<close>

text \<open>
  The audit is one jq filter inside a shell script. It reads the document that
  \<^verbatim>\<open>kubectl get deployments,statefulsets,daemonsets -A -o json\<close> wrote and looks only at
  a handful of paths of every element of \<^verbatim>\<open>.items\<close>. Each record field below is the value
  of one such path; \<open>None\<close> is jq's \<^verbatim>\<open>null\<close>, which is what a path through an absent
  key yields. A present value has the type the Kubernetes schema gives it.
\<close>

record container =
  c_name :: "string option"                              \<comment> \<open>\<^verbatim>\<open>.name\<close>\<close>
  image :: "string option"                               \<comment> \<open>\<^verbatim>\<open>.image\<close>\<close>
  privileged :: "bool option"                            \<comment> \<open>\<^verbatim>\<open>.securityContext.privileged\<close>\<close>
  has_livenessProbe :: bool                              \<comment> \<open>\<^verbatim>\<open>has("livenessProbe")\<close>\<close>
  has_readinessProbe :: bool                             \<comment> \<open>\<^verbatim>\<open>has("readinessProbe")\<close>\<close>
  resources_requests :: "(string \<times> string) list option"  \<comment> \<open>\<^verbatim>\<open>.resources.requests\<close>\<close>
  resources_limits :: "(string \<times> string) list option"    \<comment> \<open>\<^verbatim>\<open>.resources.limits\<close>\<close>

record item =
  kind :: "string option"                                \<comment> \<open>\<^verbatim>\<open>.kind\<close>\<close>
  metadata_namespace :: "string option"                  \<comment> \<open>\<^verbatim>\<open>.metadata.namespace\<close>\<close>
  metadata_name :: "string option"                       \<comment> \<open>\<^verbatim>\<open>.metadata.name\<close>\<close>
  spec_replicas :: "int option"                          \<comment> \<open>\<^verbatim>\<open>.spec.replicas\<close>\<close>
  containers :: "container list option"                  \<comment> \<open>\<^verbatim>\<open>.spec.template.spec.containers\<close>\<close>

text \<open>The objects \<^verbatim>\<open>{level, issue, detail, rec}\<close> that the rule checks collect.\<close>

record issue =
  level :: string
  issue :: string
  detail :: string
  rec :: string

text \<open>
  One output row of the filter, before \<^verbatim>\<open>@tsv\<close>:
  \<^verbatim>\<open>[$current_time, $ns, $kind, $name, .level, .issue, .rec, .detail]\<close>.
\<close>

record finding =
  f_time :: string
  f_ns :: "string option"
  f_kind :: "string option"
  f_name :: "string option"
  f_level :: string
  f_issue :: string
  f_rec :: string
  f_detail :: string

text \<open>
  The two runtime errors the filter can raise on such input: iterating
  \<^verbatim>\<open>.containers[]\<close> over \<^verbatim>\<open>null\<close>, and \<^verbatim>\<open>endswith\<close> applied to a \<^verbatim>\<open>null\<close> image.
\<close>

datatype jq_error = Cannot_iterate_over_null | Endswith_requires_string_inputs

section \<open>jq builtins used by the filter\<close>

text \<open>\<^verbatim>\<open>split(",")\<close>: the empty string splits into the empty array.\<close>

fun split_at :: "char \<Rightarrow> string \<Rightarrow> string list" where
  "split_at sep [] = [[]]"
| "split_at sep (c # cs) =
     (if c = sep then [] # split_at sep cs
      else (case split_at sep cs of
              [] \<Rightarrow> [[c]]
            | w # ws \<Rightarrow> (c # w) # ws))"

definition split_comma :: "string \<Rightarrow> string list" where
  "split_comma s = (if s = [] then [] else split_at CHR '','' s)"

text \<open>\<^verbatim>\<open>index($x)\<close> on an array: the position of the first element equal to \<open>$x\<close>, or \<^verbatim>\<open>null\<close>.\<close>

fun index_of :: "'a \<Rightarrow> 'a list \<Rightarrow> nat option" where
  "index_of x [] = None"
| "index_of x (y # ys) =
     (if x = y then Some 0
      else (case index_of x ys of None \<Rightarrow> None | Some i \<Rightarrow> Some (Suc i)))"

text \<open>\<^verbatim>\<open>a + b\<close> with a string on the left: \<^verbatim>\<open>null\<close> on the right adds nothing.\<close>

definition str_add :: "string \<Rightarrow> string option \<Rightarrow> string" where
  "str_add s t = (case t of None \<Rightarrow> s | Some u \<Rightarrow> s @ u)"

definition endswith :: "string \<Rightarrow> string \<Rightarrow> bool" where
  "endswith s suf \<longleftrightarrow> suffix suf s"

definition contains_str :: "string \<Rightarrow> string \<Rightarrow> bool" where
  "contains_str s sub \<longleftrightarrow> sublist sub s"

section \<open>The audit filter\<close>

text \<open>
  \<^verbatim>\<open>def is_excluded($ns; $list): ($list | split(",") | index($ns)) != null;\<close>
  A \<^verbatim>\<open>null\<close> namespace is searched for among strings and never found.
\<close>

definition is_excluded :: "string option \<Rightarrow> string \<Rightarrow> bool" where
  "is_excluded ns lst \<longleftrightarrow> index_of ns (map Some (split_comma lst)) \<noteq> None"

text \<open>\<^verbatim>\<open>.items[] | select(is_excluded(.metadata.namespace; $exclude_ns) | not)\<close>\<close>

fun select_items :: "string \<Rightarrow> item list \<Rightarrow> item list" where
  "select_items ex [] = []"
| "select_items ex (it # its) =
     (if \<not> is_excluded (metadata_namespace it) ex then it # select_items ex its
      else select_items ex its)"

text \<open>Check 1, replicas (Deployment only); \<^verbatim>\<open>//\<close> replaces \<^verbatim>\<open>null\<close> by 1.\<close>

definition replicas_check :: "item \<Rightarrow> issue list" where
  "replicas_check it =
     (if kind it = Some ''Deployment''
         \<and> (case spec_replicas it of None \<Rightarrow> 1 | Some n \<Rightarrow> n) = 1
      then [\<lparr>level = ''WARN'', issue = ''Single Replica'', detail = ''replicas=1'',
             rec = ''Increase replicas > 1 for HA''\<rparr>]
      else [])"

text \<open>Check 2, privileged security context.\<close>

definition privileged_issue :: "container \<Rightarrow> issue" where
  "privileged_issue c =
     \<lparr>level = ''HIGH'', issue = ''Privileged Container'',
      detail = str_add ''Container: '' (c_name c), rec = ''Avoid privileged mode''\<rparr>"

definition privileged_check :: "container list \<Rightarrow> issue list" where
  "privileged_check cs = map privileged_issue (filter (\<lambda>c. privileged c = Some True) cs)"

text \<open>
  Check 3, image tag. \<^verbatim>\<open>endswith\<close> raises on a \<^verbatim>\<open>null\<close> image, and it is evaluated
  before \<^verbatim>\<open>contains\<close>.
\<close>

definition latest_tag_selected :: "string \<Rightarrow> bool" where
  "latest_tag_selected img \<longleftrightarrow> endswith img '':latest'' \<or> \<not> contains_str img '':''"

definition image_issue :: "container \<Rightarrow> string \<Rightarrow> issue" where
  "image_issue c img =
     \<lparr>level = ''WARN'', issue = ''Using Latest Tag'',
      detail = str_add (str_add ''Container: '' (c_name c)) (Some '' ('') @ img @ '')'',
      rec = ''Use specific version tag''\<rparr>"

fun image_check :: "container list \<Rightarrow> jq_error + issue list" where
  "image_check [] = Inr []"
| "image_check (c # cs) =
     (case image c of
        None \<Rightarrow> Inl Endswith_requires_string_inputs
      | Some img \<Rightarrow>
          (case image_check cs of
             Inl e \<Rightarrow> Inl e
           | Inr r \<Rightarrow> Inr ((if latest_tag_selected img then [image_issue c img] else []) @ r)))"

text \<open>Check 4, probes.\<close>

definition liveness_issue :: "container \<Rightarrow> issue" where
  "liveness_issue c =
     \<lparr>level = ''HIGH'', issue = ''Missing LivenessProbe'',
      detail = str_add ''Container: '' (c_name c), rec = ''Add livenessProbe''\<rparr>"

definition liveness_check :: "container list \<Rightarrow> issue list" where
  "liveness_check cs = map liveness_issue (filter (\<lambda>c. \<not> has_livenessProbe c) cs)"

definition readiness_issue :: "container \<Rightarrow> issue" where
  "readiness_issue c =
     \<lparr>level = ''HIGH'', issue = ''Missing ReadinessProbe'',
      detail = str_add ''Container: '' (c_name c), rec = ''Add readinessProbe''\<rparr>"

definition readiness_check :: "container list \<Rightarrow> issue list" where
  "readiness_check cs = map readiness_issue (filter (\<lambda>c. \<not> has_readinessProbe c) cs)"

text \<open>Check 5, resources: \<^verbatim>\<open>if .. elif .. else empty end\<close> for each container.\<close>

definition resources_issue :: "container \<Rightarrow> issue list" where
  "resources_issue c =
     (if resources_requests c = None then
        [\<lparr>level = ''CRITICAL'', issue = ''Missing Requests'',
          detail = str_add ''Container: '' (c_name c), rec = ''Define resources.requests''\<rparr>]
      else if resources_limits c = None then
        [\<lparr>level = ''CRITICAL'', issue = ''Missing Limits'',
          detail = str_add ''Container: '' (c_name c), rec = ''Define resources.limits''\<rparr>]
      else [])"

definition resources_check :: "container list \<Rightarrow> issue list" where
  "resources_check cs = concat (map resources_issue cs)"

text \<open>
  The parenthesised sum of the six arrays for one item. An error in any summand is
  the error of the whole expression, so an item either yields all its issues or none.
\<close>

definition item_issues :: "item \<Rightarrow> jq_error + issue list" where
  "item_issues it =
     (case containers it of
        None \<Rightarrow> Inl Cannot_iterate_over_null
      | Some cs \<Rightarrow>
          (case image_check cs of
             Inl e \<Rightarrow> Inl e
           | Inr img \<Rightarrow>
               Inr (replicas_check it @ privileged_check cs @ img @ liveness_check cs
                    @ readiness_check cs @ resources_check cs)))"

text \<open>\<^verbatim>\<open>.[] | [$current_time, $ns, $kind, $name, .level, .issue, .rec, .detail]\<close>\<close>

definition stamp :: "string \<Rightarrow> item \<Rightarrow> issue \<Rightarrow> finding" where
  "stamp t it i =
     \<lparr>f_time = t, f_ns = metadata_namespace it, f_kind = kind it, f_name = metadata_name it,
      f_level = level i, f_issue = issue i, f_rec = rec i, f_detail = detail i\<rparr>"

text \<open>
  The filter body over the selected items. jq prints every row as it is produced and
  gives up on the document at the first error: the rows of the earlier items stay,
  the failing item and the later ones contribute nothing.
\<close>

fun audit_items :: "string \<Rightarrow> item list \<Rightarrow> finding list \<times> jq_error option" where
  "audit_items t [] = ([], None)"
| "audit_items t (it # its) =
     (case item_issues it of
        Inl e \<Rightarrow> ([], Some e)
      | Inr iss \<Rightarrow>
          (case audit_items t its of (fs, e) \<Rightarrow> (map (stamp t it) iss @ fs, e)))"

definition run_audit :: "string \<Rightarrow> string \<Rightarrow> item list \<Rightarrow> finding list \<times> jq_error option" where
  "run_audit t ex its = audit_items t (select_items ex its)"

section \<open>The shell loop and the CSV report\<close>

definition tab :: char where
  "tab = CHR 0x09"

definition newline :: char where
  "newline = CHR 0x0A"

text \<open>
  \<^verbatim>\<open>@tsv\<close>: tab, line feed, carriage return and backslash are written as the two
  characters of their escape sequence; \<^verbatim>\<open>null\<close> is written as the empty string; the
  fields are joined by single tabs.
\<close>

fun tsv_escape :: "string \<Rightarrow> string" where
  "tsv_escape [] = []"
| "tsv_escape (c # cs) =
     (if c = CHR 0x09 then [CHR 0x5C, CHR ''t'']
      else if c = CHR 0x0A then [CHR 0x5C, CHR ''n'']
      else if c = CHR 0x0D then [CHR 0x5C, CHR ''r'']
      else if c = CHR 0x5C then [CHR 0x5C, CHR 0x5C]
      else [c]) @ tsv_escape cs"

definition tsv_field :: "string option \<Rightarrow> string" where
  "tsv_field v = (case v of None \<Rightarrow> [] | Some s \<Rightarrow> tsv_escape s)"

definition tsv :: "finding \<Rightarrow> string" where
  "tsv f =
     tsv_escape (f_time f) @ [tab] @ tsv_field (f_ns f) @ [tab] @ tsv_field (f_kind f) @ [tab]
     @ tsv_field (f_name f) @ [tab] @ tsv_escape (f_level f) @ [tab] @ tsv_escape (f_issue f)
     @ [tab] @ tsv_escape (f_rec f) @ [tab] @ tsv_escape (f_detail f)"

text \<open>
  \<^verbatim>\<open>IFS=$'\t' read -r TIMESTAMP NS KIND NAME LEVEL ISSUE REC DETAIL\<close>.
  Tab is an IFS white-space character: tabs at both ends of the line are dropped and
  a run of tabs separates two words like a single one. The last variable takes the
  rest of the line. \<^verbatim>\<open>-r\<close> leaves backslashes alone.
\<close>

definition read_word :: "string \<Rightarrow> string \<times> string" where
  "read_word s =
     (takeWhile (\<lambda>c. c \<noteq> tab) s, dropWhile (\<lambda>c. c = tab) (dropWhile (\<lambda>c. c \<noteq> tab) s))"

record loop_vars =
  TIMESTAMP :: string
  NS :: string
  KIND :: string
  NAME :: string
  LEVEL :: string
  ISSUE :: string
  REC :: string
  DETAIL :: string

definition read_vars :: "string \<Rightarrow> loop_vars" where
  "read_vars line =
     (case read_word (dropWhile (\<lambda>c. c = tab) line) of (w1, r1) \<Rightarrow>
      case read_word r1 of (w2, r2) \<Rightarrow>
      case read_word r2 of (w3, r3) \<Rightarrow>
      case read_word r3 of (w4, r4) \<Rightarrow>
      case read_word r4 of (w5, r5) \<Rightarrow>
      case read_word r5 of (w6, r6) \<Rightarrow>
      case read_word r6 of (w7, r7) \<Rightarrow>
        \<lparr>TIMESTAMP = w1, NS = w2, KIND = w3, NAME = w4, LEVEL = w5, ISSUE = w6, REC = w7,
         DETAIL = rev (dropWhile (\<lambda>c. c = tab) (rev r7))\<rparr>)"

text \<open>\<^verbatim>\<open>echo "$TIMESTAMP,$NS,$KIND,$NAME,$LEVEL,$ISSUE - $DETAIL,$REC"\<close>\<close>

definition csv_row :: "loop_vars \<Rightarrow> string" where
  "csv_row v =
     TIMESTAMP v @ '','' @ NS v @ '','' @ KIND v @ '','' @ NAME v @ '','' @ LEVEL v @ '',''
     @ ISSUE v @ '' - '' @ DETAIL v @ '','' @ REC v"

definition csv_header :: string where
  "csv_header = ''Timestamp,Namespace,Type,Name,Issue_Level,Issue_Type,Recommendation''"

text \<open>
  The report file is the state. \<^verbatim>\<open>echo .. > "$CSV_FILE"\<close> replaces its content,
  \<^verbatim>\<open>echo .. >> "$CSV_FILE"\<close> appends a line.
\<close>

definition echo_to :: "string \<Rightarrow> string \<Rightarrow> string" where
  "echo_to line file = line @ [newline]"

definition echo_append :: "string \<Rightarrow> string \<Rightarrow> string" where
  "echo_append line file = file @ line @ [newline]"

fun output_loop :: "string list \<Rightarrow> string \<Rightarrow> string" where
  "output_loop [] file = file"
| "output_loop (l # ls) file = output_loop ls (echo_append (csv_row (read_vars l)) file)"

text \<open>
  Section 3 of the script: \<open>t\<close> is the one reading of the clock made when jq is
  started, \<open>ex\<close> the value of \<^verbatim>\<open>EXCLUDE_NS\<close>, \<open>its\<close> the fetched items and \<open>file\<close>
  what the report file held before. A jq error does not stop the loop from writing
  the rows printed before it.
\<close>

definition audit_script :: "string \<Rightarrow> string \<Rightarrow> item list \<Rightarrow> string \<Rightarrow> string" where
  "audit_script t ex its file =
     output_loop (map tsv (fst (run_audit t ex its))) (echo_to csv_header file)"

text \<open>
  The number of columns of one CSV line as a reader of the report counts them:
  a comma separates two columns unless it stands between double quotes.
\<close>

fun csv_columns :: "bool \<Rightarrow> string \<Rightarrow> nat" where
  "csv_columns q [] = 1"
| "csv_columns q (c # cs) =
     (if c = CHR 0x22 then csv_columns (\<not> q) cs
      else if c = CHR '','' \<and> \<not> q then Suc (csv_columns q cs)
      else csv_columns q cs)"

section \<open>Category and JSON projection\<close>

datatype category = Stability | Security | FinOps

text \<open>
  Modelled from the spec: the category classifier is not part of the script; it belongs
  to the service behind the dashboard, whose source is not available. The rule table
  of the specification gives every rule its category, and an unknown issue type falls
  back to Stability. The keys are the issue strings the filter emits for those rules.
\<close>

definition classify :: "string \<Rightarrow> category" where
  "classify i =
     (if i = ''Privileged Container'' then Security
      else if i = ''Missing Requests'' \<or> i = ''Missing Limits'' then FinOps
      else Stability)"

datatype json = JNull | JString string | JObject "(string \<times> json) list" | JArray "json list"

definition json_of_option :: "string option \<Rightarrow> json" where
  "json_of_option v = (case v of None \<Rightarrow> JNull | Some s \<Rightarrow> JString s)"

definition category_name :: "category \<Rightarrow> string" where
  "category_name c = (case c of Stability \<Rightarrow> ''Stability'' | Security \<Rightarrow> ''Security''
                      | FinOps \<Rightarrow> ''FinOps'')"

text \<open>
  Modelled from the spec: the JSON projection is not part of the script either. The
  specification describes it as an array of finding objects with the field names of
  its data model.
\<close>

definition json_finding :: "finding \<Rightarrow> json" where
  "json_finding f =
     JObject [(''timestamp'', JString (f_time f)),
              (''namespace'', json_of_option (f_ns f)),
              (''resourceKind'', json_of_option (f_kind f)),
              (''resourceName'', json_of_option (f_name f)),
              (''level'', JString (f_level f)),
              (''category'', JString (category_name (classify (f_issue f)))),
              (''issueType'', JString (f_issue f)),
              (''detail'', JString (f_detail f)),
              (''recommendation'', JString (f_rec f))]"

definition json_projection :: "finding list \<Rightarrow> json" where
  "json_projection fs = JArray (map json_finding fs)"

section \<open>Configuration\<close>

text \<open>
  \<^verbatim>\<open>EXCLUDE_NS="${EXCLUDE_NS:-kube-system,kube-public,...}"\<close>: the value handed to jq as
  \<^verbatim>\<open>$exclude_ns\<close>. The argument is the variable in the caller's environment, \<open>None\<close>
  when it is unset; the default replaces an unset and an empty variable alike.
\<close>

definition default_exclude_ns :: string where
  "default_exclude_ns = ''kube-system,kube-public,local-path-storage,ingress-nginx,cert-manager''"

definition EXCLUDE_NS :: "string option \<Rightarrow> string" where
  "EXCLUDE_NS env =
     (case env of
        None \<Rightarrow> default_exclude_ns
      | Some s \<Rightarrow> if s = [] then default_exclude_ns else s)"

text \<open>
  The exclusion set as the specification describes the input: namespace names written
  as one comma-delimited string.
\<close>

fun comma_delimited :: "string list \<Rightarrow> string" where
  "comma_delimited [] = []"
| "comma_delimited [n] = n"
| "comma_delimited (n # m # ns) = n @ '','' @ comma_delimited (m # ns)"

section \<open>Rule order and sample workloads\<close>

text \<open>The position of a rule in the evaluation order, read off the issue it reports.\<close>

definition rule_rank :: "string \<Rightarrow> nat" where
  "rule_rank i =
     (if i = ''Single Replica'' then 0
      else if i = ''Privileged Container'' then 1
      else if i = ''Using Latest Tag'' then 2
      else if i = ''Missing LivenessProbe'' then 3
      else if i = ''Missing ReadinessProbe'' then 4
      else 5)"

text \<open>
  The Deployment \<^verbatim>\<open>web\<close> of namespace \<^verbatim>\<open>prod\<close>: no replica count, one container
  \<^verbatim>\<open>app\<close> running \<^verbatim>\<open>app:latest\<close> without probes and without a resources stanza.
\<close>

definition web_app :: container where
  "web_app =
     \<lparr>c_name = Some ''app'', image = Some ''app:latest'', privileged = None,
      has_livenessProbe = False, has_readinessProbe = False,
      resources_requests = None, resources_limits = None\<rparr>"

definition web :: item where
  "web =
     \<lparr>kind = Some ''Deployment'', metadata_namespace = Some ''prod'',
      metadata_name = Some ''web'', spec_replicas = None, containers = Some [web_app]\<rparr>"

text \<open>What the filter collects for \<^verbatim>\<open>web\<close>.\<close>

definition web_issue_list :: "issue list" where
  "web_issue_list =
     [\<lparr>level = ''WARN'', issue = ''Single Replica'', detail = ''replicas=1'',
        rec = ''Increase replicas > 1 for HA''\<rparr>,
      \<lparr>level = ''WARN'', issue = ''Using Latest Tag'', detail = ''Container: app (app:latest)'',
        rec = ''Use specific version tag''\<rparr>,
      \<lparr>level = ''HIGH'', issue = ''Missing LivenessProbe'', detail = ''Container: app'',
        rec = ''Add livenessProbe''\<rparr>,
      \<lparr>level = ''HIGH'', issue = ''Missing ReadinessProbe'', detail = ''Container: app'',
        rec = ''Add readinessProbe''\<rparr>,
      \<lparr>level = ''CRITICAL'', issue = ''Missing Requests'', detail = ''Container: app'',
        rec = ''Define resources.requests''\<rparr>]"

text \<open>
  A container whose untagged image comes from a registry with a port, alone in a
  Deployment and as the second of three containers of a StatefulSet.
\<close>

definition registry_app :: container where
  "registry_app =
     \<lparr>c_name = Some ''proxy'', image = Some ''registry.local:5000/app'', privileged = None,
      has_livenessProbe = True, has_readinessProbe = True,
      resources_requests = Some [(''cpu'', ''100m'')], resources_limits = None\<rparr>"

definition registry_web :: item where
  "registry_web =
     \<lparr>kind = Some ''Deployment'', metadata_namespace = Some ''prod'',
      metadata_name = Some ''web'', spec_replicas = Some 3, containers = Some [registry_app]\<rparr>"

definition db_app :: container where
  "db_app =
     \<lparr>c_name = Some ''db'', image = Some ''postgres:16'', privileged = Some True,
      has_livenessProbe = True, has_readinessProbe = False,
      resources_requests = Some [(''cpu'', ''1'')], resources_limits = Some [(''cpu'', ''2'')]\<rparr>"

definition stack :: item where
  "stack =
     \<lparr>kind = Some ''StatefulSet'', metadata_namespace = Some ''data'',
      metadata_name = Some ''stack'', spec_replicas = Some 1,
      containers = Some [web_app, registry_app, db_app]\<rparr>"

definition stack_issue_list :: "issue list" where
  "stack_issue_list =
     [\<lparr>level = ''HIGH'', issue = ''Privileged Container'', detail = ''Container: db'',
        rec = ''Avoid privileged mode''\<rparr>,
      \<lparr>level = ''WARN'', issue = ''Using Latest Tag'', detail = ''Container: app (app:latest)'',
        rec = ''Use specific version tag''\<rparr>,
      \<lparr>level = ''HIGH'', issue = ''Missing LivenessProbe'', detail = ''Container: app'',
        rec = ''Add livenessProbe''\<rparr>,
      \<lparr>level = ''HIGH'', issue = ''Missing ReadinessProbe'', detail = ''Container: app'',
        rec = ''Add readinessProbe''\<rparr>,
      \<lparr>level = ''HIGH'', issue = ''Missing ReadinessProbe'', detail = ''Container: db'',
        rec = ''Add readinessProbe''\<rparr>,
      \<lparr>level = ''CRITICAL'', issue = ''Missing Requests'', detail = ''Container: app'',
        rec = ''Define resources.requests''\<rparr>,
      \<lparr>level = ''CRITICAL'', issue = ''Missing Limits'', detail = ''Container: proxy'',
        rec = ''Define resources.limits''\<rparr>]"

text \<open>
  \<^verbatim>\<open>web\<close> without a name, and \<^verbatim>\<open>web\<close> without a pod template (no container list).
\<close>

definition nameless_web :: item where
  "nameless_web = web\<lparr>metadata_name := None\<rparr>"

definition broken_web :: item where
  "broken_web = web\<lparr>containers := None\<rparr>"

text \<open>
  A Deployment whose only container runs an image with a comma in its name, the one
  finding a run at \<^verbatim>\<open>2024-01-01T00:00:00Z\<close> reports for it, and the line of the report
  for that finding.
\<close>

definition comma_app :: container where
  "comma_app =
     \<lparr>c_name = Some ''app'', image = Some ''my,app'', privileged = None,
      has_livenessProbe = True, has_readinessProbe = True,
      resources_requests = Some [(''cpu'', ''100m'')],
      resources_limits = Some [(''cpu'', ''200m'')]\<rparr>"

definition comma_web :: item where
  "comma_web =
     \<lparr>kind = Some ''Deployment'', metadata_namespace = Some ''prod'',
      metadata_name = Some ''web'', spec_replicas = Some 3, containers = Some [comma_app]\<rparr>"

definition comma_finding :: finding where
  "comma_finding =
     \<lparr>f_time = ''2024-01-01T00:00:00Z'', f_ns = Some ''prod'', f_kind = Some ''Deployment'',
      f_name = Some ''web'', f_level = ''WARN'', f_issue = ''Using Latest Tag'',
      f_rec = ''Use specific version tag'', f_detail = ''Container: app (my,app)''\<rparr>"

definition comma_row :: string where
  "comma_row = ''2024-01-01T00:00:00Z,prod,Deployment,web,WARN,Using Latest Tag - Container: app (my,app),Use specific version tag''"

text \<open>
  \<^verbatim>\<open>web\<close> moved to namespace \<^verbatim>\<open>kube-system\<close>, and to a namespace that differs from
  it in case only.
\<close>

definition kube_dns :: item where
  "kube_dns = web\<lparr>metadata_namespace := Some ''kube-system'', metadata_name := Some ''coredns''\<rparr>"

definition shouting :: item where
  "shouting = web\<lparr>metadata_namespace := Some ''Kube-System''\<rparr>"

section \<open>Basic facts about the filter\<close>

lemma index_of_None: "index_of x xs = None \<longleftrightarrow> x \<notin> set xs"
  by (induction xs) (auto split: option.splits)

lemma is_excluded_iff: "is_excluded ns ex \<longleftrightarrow> ns \<in> Some ` set (split_comma ex)"
  by (simp add: is_excluded_def index_of_None)

lemma not_excluded_empty: "\<not> is_excluded ns []"
  by (simp add: is_excluded_def split_comma_def)

lemma prod_excluded: "is_excluded (Some ''prod'') ''prod''"
  by (simp add: is_excluded_def split_comma_def)

lemma select_items_filter:
  "select_items ex its = filter (\<lambda>it. \<not> is_excluded (metadata_namespace it) ex) its"
  by (induction its) simp_all

lemma latest_tag_app_latest: "latest_tag_selected ''app:latest''"
  by (simp add: latest_tag_selected_def endswith_def suffix_to_prefix)

lemma web_issues: "item_issues web = Inr web_issue_list"
  by (simp add: item_issues_def web_def web_app_def web_issue_list_def replicas_check_def
      privileged_check_def latest_tag_app_latest image_issue_def liveness_check_def
      liveness_issue_def readiness_check_def readiness_issue_def resources_check_def
      resources_issue_def str_add_def)

lemma not_latest_registry: "\<not> latest_tag_selected ''registry.local:5000/app''"
  by (simp add: latest_tag_selected_def endswith_def contains_str_def suffix_to_prefix
      sublist_Cons_right)

lemma not_latest_postgres: "\<not> latest_tag_selected ''postgres:16''"
  by (simp add: latest_tag_selected_def endswith_def contains_str_def suffix_to_prefix
      sublist_Cons_right)

lemma stack_issues: "item_issues stack = Inr stack_issue_list"
  by (simp add: item_issues_def stack_def web_app_def registry_app_def db_app_def
      stack_issue_list_def replicas_check_def privileged_check_def privileged_issue_def
      latest_tag_app_latest not_latest_registry not_latest_postgres image_issue_def
      liveness_check_def liveness_issue_def readiness_check_def readiness_issue_def
      resources_check_def resources_issue_def str_add_def)

lemma item_issues_Inr:
  "item_issues it = Inr iss \<Longrightarrow>
   \<exists>cs img. containers it = Some cs \<and> image_check cs = Inr img \<and>
     iss = replicas_check it @ privileged_check cs @ img @ liveness_check cs
           @ readiness_check cs @ resources_check cs"
  by (auto simp: item_issues_def split: option.splits sum.splits)

lemma image_check_Inr:
  "image_check cs = Inr r \<Longrightarrow>
   r = concat (map (\<lambda>c. case image c of None \<Rightarrow> []
        | Some img \<Rightarrow> if latest_tag_selected img then [image_issue c img] else []) cs)"
  by (induction cs arbitrary: r) (auto split: option.splits sum.splits)

lemma issue_replicas_check: "i \<in> set (replicas_check it) \<Longrightarrow> issue i = ''Single Replica''"
  by (auto simp: replicas_check_def split: if_splits)

lemma issue_privileged_check: "i \<in> set (privileged_check cs) \<Longrightarrow> issue i = ''Privileged Container''"
  by (auto simp: privileged_check_def privileged_issue_def)

lemma issue_image_check: "image_check cs = Inr r \<Longrightarrow> i \<in> set r \<Longrightarrow> issue i = ''Using Latest Tag''"
  by (induction cs arbitrary: r) (auto simp: image_issue_def split: option.splits sum.splits if_splits)

lemma issue_liveness_check: "i \<in> set (liveness_check cs) \<Longrightarrow> issue i = ''Missing LivenessProbe''"
  by (auto simp: liveness_check_def liveness_issue_def)

lemma issue_readiness_check: "i \<in> set (readiness_check cs) \<Longrightarrow> issue i = ''Missing ReadinessProbe''"
  by (auto simp: readiness_check_def readiness_issue_def)

lemma issue_resources_check:
  "i \<in> set (resources_check cs) \<Longrightarrow> issue i = ''Missing Requests'' \<or> issue i = ''Missing Limits''"
  by (auto simp: resources_check_def resources_issue_def split: if_splits)

lemma filter_same_issue:
  "(\<And>i. i \<in> set xs \<Longrightarrow> issue i = n) \<Longrightarrow>
   filter (\<lambda>i. Q (issue i)) xs = (if Q n then xs else [])"
  by (induction xs) auto

lemma filter_resources_check:
  "Q ''Missing Requests'' = b \<Longrightarrow> Q ''Missing Limits'' = b \<Longrightarrow>
   filter (\<lambda>i. Q (issue i)) (resources_check cs) = (if b then resources_check cs else [])"
  by (induction cs) (auto simp: resources_check_def resources_issue_def)

lemma filter_item_issues:
  assumes "item_issues it = Inr iss" and "containers it = Some cs"
    and "Q ''Missing Requests'' = b" and "Q ''Missing Limits'' = b"
  shows "\<exists>img. image_check cs = Inr img \<and>
    filter (\<lambda>i. Q (issue i)) iss =
      (if Q ''Single Replica'' then replicas_check it else [])
      @ (if Q ''Privileged Container'' then privileged_check cs else [])
      @ (if Q ''Using Latest Tag'' then img else [])
      @ (if Q ''Missing LivenessProbe'' then liveness_check cs else [])
      @ (if Q ''Missing ReadinessProbe'' then readiness_check cs else [])
      @ (if b then resources_check cs else [])"
proof -
  from item_issues_Inr [OF assms(1)] assms(2) obtain img where
    img: "image_check cs = Inr img" and
    iss: "iss = replicas_check it @ privileged_check cs @ img @ liveness_check cs
           @ readiness_check cs @ resources_check cs"
    by auto
  have 1: "filter (\<lambda>i. Q (issue i)) (replicas_check it) =
             (if Q ''Single Replica'' then replicas_check it else [])"
    by (rule filter_same_issue) (rule issue_replicas_check)
  have 2: "filter (\<lambda>i. Q (issue i)) (privileged_check cs) =
             (if Q ''Privileged Container'' then privileged_check cs else [])"
    by (rule filter_same_issue) (rule issue_privileged_check)
  have 3: "filter (\<lambda>i. Q (issue i)) img = (if Q ''Using Latest Tag'' then img else [])"
    by (rule filter_same_issue) (rule issue_image_check [OF img])
  have 4: "filter (\<lambda>i. Q (issue i)) (liveness_check cs) =
             (if Q ''Missing LivenessProbe'' then liveness_check cs else [])"
    by (rule filter_same_issue) (rule issue_liveness_check)
  have 5: "filter (\<lambda>i. Q (issue i)) (readiness_check cs) =
             (if Q ''Missing ReadinessProbe'' then readiness_check cs else [])"
    by (rule filter_same_issue) (rule issue_readiness_check)
  have 6: "filter (\<lambda>i. Q (issue i)) (resources_check cs) = (if b then resources_check cs else [])"
    by (rule filter_resources_check) (rule assms)+
  show ?thesis
    using img by (simp only: iss filter_append 1 2 3 4 5 6) simp
qed

lemma run_audit_single:
  "\<not> is_excluded (metadata_namespace it) ex \<Longrightarrow>
   run_audit t ex [it] =
     (case item_issues it of Inl e \<Rightarrow> ([], Some e) | Inr iss \<Rightarrow> (map (stamp t it) iss, None))"
  by (simp add: run_audit_def split: sum.splits)

section \<open>The end-to-end example\<close>

text \<open>
  C1, as the code has it. Audited with an empty exclusion list, the Deployment \<^verbatim>\<open>web\<close>
  yields five findings, in this order: Single Replica (WARN, Stability), Using Latest
  Tag (WARN, Stability), Missing LivenessProbe (HIGH, Stability), Missing
  ReadinessProbe (HIGH, Stability) and Missing Requests (CRITICAL, FinOps), each for
  namespace \<^verbatim>\<open>prod\<close>, kind Deployment and name \<^verbatim>\<open>web\<close> and stamped with the clock
  value of the run. With the exclusion list \<^verbatim>\<open>prod\<close> it yields none.
\<close>

theorem end_to_end_web:
  "map (\<lambda>f. (f_time f, f_ns f, f_kind f, f_name f, f_issue f, f_level f, classify (f_issue f)))
       (fst (run_audit t [] [web])) =
     [(t, Some ''prod'', Some ''Deployment'', Some ''web'', ''Single Replica'', ''WARN'', Stability),
      (t, Some ''prod'', Some ''Deployment'', Some ''web'', ''Using Latest Tag'', ''WARN'', Stability),
      (t, Some ''prod'', Some ''Deployment'', Some ''web'', ''Missing LivenessProbe'', ''HIGH'',
       Stability),
      (t, Some ''prod'', Some ''Deployment'', Some ''web'', ''Missing ReadinessProbe'', ''HIGH'',
       Stability),
      (t, Some ''prod'', Some ''Deployment'', Some ''web'', ''Missing Requests'', ''CRITICAL'',
       FinOps)]
   \<and> length (fst (run_audit t [] [web])) = 5
   \<and> snd (run_audit t [] [web]) = None
   \<and> run_audit t ''prod'' [web] = ([], None)"
proof -
  have sel: "metadata_namespace web = Some ''prod''" "kind web = Some ''Deployment''"
    "metadata_name web = Some ''web''"
    by (simp_all add: web_def)
  have "\<not> is_excluded (metadata_namespace web) []"
    by (rule not_excluded_empty)
  then have run: "run_audit t [] [web] =
      (case item_issues web of Inl e \<Rightarrow> ([], Some e) | Inr iss \<Rightarrow> (map (stamp t web) iss, None))"
    by (rule run_audit_single)
  have "run_audit t ''prod'' [web] = ([], None)"
    using prod_excluded by (simp add: run_audit_def sel)
  then show ?thesis
    by (simp add: run web_issues web_issue_list_def stamp_def classify_def sel)
qed

text \<open>
  C1 as stated asks for six findings. At the clock value \<^verbatim>\<open>2024-01-01T00:00:00Z\<close> the
  run on \<^verbatim>\<open>web\<close> does not yield six.
\<close>

theorem end_to_end_web_counterexample:
  "length (fst (run_audit ''2024-01-01T00:00:00Z'' [] [web])) \<noteq> 6"
proof -
  have "\<not> is_excluded (metadata_namespace web) []"
    by (rule not_excluded_empty)
  then have "run_audit ''2024-01-01T00:00:00Z'' [] [web] =
      (case item_issues web of Inl e \<Rightarrow> ([], Some e)
       | Inr iss \<Rightarrow> (map (stamp ''2024-01-01T00:00:00Z'' web) iss, None))"
    by (rule run_audit_single)
  then show ?thesis
    by (simp add: web_issues web_issue_list_def)
qed

section \<open>Namespace exclusion\<close>

lemma split_at_not_Nil: "split_at sep s \<noteq> []"
  by (induction s) (auto split: list.splits)

lemma split_at_free: "sep \<notin> set n \<Longrightarrow> split_at sep n = [n]"
  by (induction n) auto

lemma split_at_append:
  "sep \<notin> set n \<Longrightarrow> split_at sep (n @ sep # rest) = n # split_at sep rest"
  by (induction n) auto

lemma split_at_delimited:
  "names \<noteq> [] \<Longrightarrow> list_all (\<lambda>n. CHR '','' \<notin> set n) names \<Longrightarrow>
   split_at CHR '','' (comma_delimited names) = names"
  by (induction names rule: comma_delimited.induct) (simp_all add: split_at_free split_at_append)

lemma comma_delimited_Nil_iff:
  "comma_delimited names = [] \<longleftrightarrow> names = [] \<or> names = [[]]"
  by (induction names rule: comma_delimited.induct) simp_all

lemma split_comma_delimited:
  assumes "list_all (\<lambda>n. CHR '','' \<notin> set n) names" and "names \<noteq> [[]]"
  shows "split_comma (comma_delimited names) = names"
proof (cases "names = []")
  case True
  then show ?thesis by (simp add: split_comma_def)
next
  case False
  with assms(2) have "comma_delimited names \<noteq> []"
    by (simp add: comma_delimited_Nil_iff)
  with split_at_delimited [OF False assms(1)] show ?thesis
    by (simp add: split_comma_def)
qed

lemma comma_delimited_Cons_Cons:
  "comma_delimited ((c # w) # ws) = c # comma_delimited (w # ws)"
  by (cases ws) simp_all

lemma comma_delimited_split_at: "comma_delimited (split_at CHR '','' s) = s"
proof (induction s)
  case Nil
  show ?case by simp
next
  case (Cons c cs)
  obtain w ws where w: "split_at CHR '','' cs = w # ws"
    using split_at_not_Nil [of "CHR '',''" cs] by (cases "split_at CHR '','' cs") auto
  with Cons.IH show ?case
    by (simp add: comma_delimited_Cons_Cons)
qed

lemma split_at_pieces_free: "list_all (\<lambda>n. sep \<notin> set n) (split_at sep s)"
  by (induction s) (auto split: list.splits)

lemma split_comma_roundtrip:
  "comma_delimited (split_comma ex) = ex \<and> list_all (\<lambda>n. CHR '','' \<notin> set n) (split_comma ex)
   \<and> split_comma ex \<noteq> [[]]"
proof (cases ex)
  case Nil
  then show ?thesis by (simp add: split_comma_def)
next
  case (Cons c cs)
  have "split_at CHR '','' ex \<noteq> [[]]"
  proof
    assume "split_at CHR '','' ex = [[]]"
    with comma_delimited_split_at [of ex] Cons show False by simp
  qed
  with Cons show ?thesis
    by (simp add: split_comma_def comma_delimited_split_at split_at_pieces_free
        del: split_at.simps)
qed

lemma default_delimited:
  "default_exclude_ns = comma_delimited
     [''kube-system'', ''kube-public'', ''local-path-storage'', ''ingress-nginx'', ''cert-manager'']"
  by (simp add: default_exclude_ns_def)

lemma sample_namespaces:
  "metadata_namespace kube_dns = Some ''kube-system''"
  "metadata_namespace web = Some ''prod''"
  "metadata_namespace shouting = Some ''Kube-System''"
  "metadata_namespace stack = Some ''data''"
  by (simp_all add: kube_dns_def web_def shouting_def stack_def)

lemma default_excludes_kube_system: "is_excluded (Some ''kube-system'') default_exclude_ns"
  by code_simp

lemma default_keeps_prod: "\<not> is_excluded (Some ''prod'') default_exclude_ns"
  by code_simp

text \<open>
  C7, as the code has it. Every exclusion string is the comma-delimited string of a list
  of comma-free names, and for such a string the selection keeps exactly the items whose
  namespace is not one of the names, compared as strings. The selection works item by
  item: it distributes over concatenation of the input, and what it keeps is a
  subsequence of the input. The script does not pass an empty list: an unset or empty
  \<^verbatim>\<open>EXCLUDE_NS\<close> is replaced by the default list of five namespaces, and any other value
  is passed as it is.
\<close>

theorem namespace_filter_exact:
  "(list_all (\<lambda>n. CHR '','' \<notin> set n) names \<and> names \<noteq> [[]] \<longrightarrow>
      select_items (comma_delimited names) its =
        filter (\<lambda>it. metadata_namespace it \<notin> Some ` set names) its)
   \<and> (\<exists>names. ex = comma_delimited names \<and> list_all (\<lambda>n. CHR '','' \<notin> set n) names
          \<and> names \<noteq> [[]])
   \<and> select_items ex (xs @ ys) = select_items ex xs @ select_items ex ys
   \<and> subseq (select_items ex its) its
   \<and> EXCLUDE_NS None = default_exclude_ns
   \<and> EXCLUDE_NS (Some []) = default_exclude_ns
   \<and> (s \<noteq> [] \<longrightarrow> EXCLUDE_NS (Some s) = s)
   \<and> EXCLUDE_NS env \<noteq> []
   \<and> default_exclude_ns = comma_delimited
       [''kube-system'', ''kube-public'', ''local-path-storage'', ''ingress-nginx'', ''cert-manager'']"
proof (intro conjI impI)
  assume "list_all (\<lambda>n. CHR '','' \<notin> set n) names \<and> names \<noteq> [[]]"
  then have "split_comma (comma_delimited names) = names"
    by (simp add: split_comma_delimited)
  then show "select_items (comma_delimited names) its =
        filter (\<lambda>it. metadata_namespace it \<notin> Some ` set names) its"
    by (simp add: select_items_filter is_excluded_iff)
next
  from split_comma_roundtrip [of ex]
  show "\<exists>names. ex = comma_delimited names \<and> list_all (\<lambda>n. CHR '','' \<notin> set n) names
          \<and> names \<noteq> [[]]"
    by (intro exI [of _ "split_comma ex"]) simp
next
  show "select_items ex (xs @ ys) = select_items ex xs @ select_items ex ys"
    by (simp add: select_items_filter)
  show "subseq (select_items ex its) its"
    by (simp add: select_items_filter)
  show "EXCLUDE_NS None = default_exclude_ns" "EXCLUDE_NS (Some []) = default_exclude_ns"
    by (simp_all add: EXCLUDE_NS_def)
  show "EXCLUDE_NS env \<noteq> []"
    by (cases env) (simp_all add: EXCLUDE_NS_def default_exclude_ns_def)
  show "default_exclude_ns = comma_delimited
       [''kube-system'', ''kube-public'', ''local-path-storage'', ''ingress-nginx'', ''cert-manager'']"
    by (rule default_delimited)
next
  assume "s \<noteq> []"
  then show "EXCLUDE_NS (Some s) = s"
    by (simp add: EXCLUDE_NS_def)
qed

theorem namespace_filter_exact_witness:
  "list_all (\<lambda>n. CHR '','' \<notin> set n)
     [''kube-system'', ''kube-public'', ''local-path-storage'', ''ingress-nginx'', ''cert-manager'']
   \<and> [''kube-system'', ''kube-public'', ''local-path-storage'', ''ingress-nginx'', ''cert-manager'']
       \<noteq> [[]]
   \<and> ''kube-system'' \<noteq> []
   \<and> EXCLUDE_NS (Some ''kube-system'') = ''kube-system''
   \<and> select_items (EXCLUDE_NS None) [kube_dns, web, shouting, kube_dns, stack]
       = [web, shouting, stack]"
proof -
  have h: "list_all (\<lambda>n. CHR '','' \<notin> set n)
     [''kube-system'', ''kube-public'', ''local-path-storage'', ''ingress-nginx'', ''cert-manager'']
   \<and> [''kube-system'', ''kube-public'', ''local-path-storage'', ''ingress-nginx'', ''cert-manager'']
       \<noteq> [[]]"
    by simp
  have s: "''kube-system'' \<noteq> []"
    by simp
  note t = namespace_filter_exact [where names = "[''kube-system'', ''kube-public'',
      ''local-path-storage'', ''ingress-nginx'', ''cert-manager'']"
      and its = "[kube_dns, web, shouting, kube_dns, stack]" and s = "''kube-system''"
      and ex = "[]" and xs = "[]" and ys = "[]" and env = None]
  from t have e: "EXCLUDE_NS (Some ''kube-system'') = ''kube-system''"
    using s by simp
  from t have d: "EXCLUDE_NS None = comma_delimited [''kube-system'', ''kube-public'',
      ''local-path-storage'', ''ingress-nginx'', ''cert-manager'']"
    by simp
  have "select_items (EXCLUDE_NS None) [kube_dns, web, shouting, kube_dns, stack] =
      select_items (comma_delimited [''kube-system'', ''kube-public'',
        ''local-path-storage'', ''ingress-nginx'', ''cert-manager''])
        [kube_dns, web, shouting, kube_dns, stack]"
    by (simp only: d)
  also have "\<dots> = filter (\<lambda>it. metadata_namespace it \<notin> Some ` set [''kube-system'',
      ''kube-public'', ''local-path-storage'', ''ingress-nginx'', ''cert-manager''])
      [kube_dns, web, shouting, kube_dns, stack]"
    by (rule t [THEN conjunct1, THEN mp, OF h])
  also have "\<dots> = [web, shouting, stack]"
    by (simp add: sample_namespaces)
  finally show ?thesis
    using h s e by simp
qed

text \<open>
  C7 as stated has an empty exclusion set exclude nothing. With \<^verbatim>\<open>EXCLUDE_NS\<close> set to
  the empty string, the workload of namespace \<^verbatim>\<open>kube-system\<close> is dropped.
\<close>

theorem namespace_filter_counterexample:
  "select_items (EXCLUDE_NS (Some [])) [kube_dns, web] \<noteq> [kube_dns, web]"
proof -
  have "select_items (EXCLUDE_NS (Some [])) [kube_dns, web] = [web]"
    by (simp add: EXCLUDE_NS_def sample_namespaces default_excludes_kube_system
        default_keeps_prod)
  then show ?thesis
    by simp
qed

section \<open>The replica rule\<close>

text \<open>
  C5. Among the issues collected for a workload, those named Single Replica are: exactly
  one, of level WARN, when the workload is a Deployment whose replica count is absent
  or 1; none for a Deployment with another replica count and none for any other kind,
  whatever its replica count.
\<close>

theorem single_replica_rule:
  assumes "item_issues it = Inr iss"
  shows "filter (\<lambda>i. issue i = ''Single Replica'') iss =
     (if kind it = Some ''Deployment'' \<and> (spec_replicas it = None \<or> spec_replicas it = Some 1)
      then [\<lparr>level = ''WARN'', issue = ''Single Replica'', detail = ''replicas=1'',
             rec = ''Increase replicas > 1 for HA''\<rparr>]
      else [])"
proof -
  from item_issues_Inr [OF assms] obtain cs where cs: "containers it = Some cs"
    by blast
  from filter_item_issues [OF assms cs, of "\<lambda>n. n = ''Single Replica''" False]
  have "filter (\<lambda>i. issue i = ''Single Replica'') iss = replicas_check it"
    by auto
  then show ?thesis
    by (auto simp: replicas_check_def split: option.splits)
qed

theorem single_replica_rule_witness:
  "item_issues web = Inr web_issue_list
   \<and> filter (\<lambda>i. issue i = ''Single Replica'') web_issue_list =
       [\<lparr>level = ''WARN'', issue = ''Single Replica'', detail = ''replicas=1'',
         rec = ''Increase replicas > 1 for HA''\<rparr>]"
  using single_replica_rule [OF web_issues] web_issues
  by (simp add: web_def)

section \<open>The resource rules\<close>

text \<open>
  C3. Among the issues collected for a workload, the resource issues are, container by
  container in the workload's order: one Missing Requests (CRITICAL) for a container
  without requests, whether or not it has limits; one Missing Limits (CRITICAL) for a
  container with requests and without limits; nothing for a container with both. No
  container gets two.
\<close>

theorem resource_rules_exclusive:
  assumes "item_issues it = Inr iss" and "containers it = Some cs"
  shows "filter (\<lambda>i. issue i = ''Missing Requests'' \<or> issue i = ''Missing Limits'') iss =
     concat (map (\<lambda>c.
       if resources_requests c = None then
         [\<lparr>level = ''CRITICAL'', issue = ''Missing Requests'',
           detail = str_add ''Container: '' (c_name c), rec = ''Define resources.requests''\<rparr>]
       else if resources_limits c = None then
         [\<lparr>level = ''CRITICAL'', issue = ''Missing Limits'',
           detail = str_add ''Container: '' (c_name c), rec = ''Define resources.limits''\<rparr>]
       else []) cs)"
proof -
  from filter_item_issues [OF assms, of "\<lambda>n. n = ''Missing Requests'' \<or> n = ''Missing Limits''" True]
  have "filter (\<lambda>i. issue i = ''Missing Requests'' \<or> issue i = ''Missing Limits'') iss =
          resources_check cs"
    by auto
  also have "resources_check cs = concat (map resources_issue cs)"
    by (simp add: resources_check_def)
  finally show ?thesis
    by (simp add: resources_issue_def [abs_def])
qed

theorem resource_rules_exclusive_witness:
  "item_issues stack = Inr stack_issue_list
   \<and> containers stack = Some [web_app, registry_app, db_app]
   \<and> filter (\<lambda>i. issue i = ''Missing Requests'' \<or> issue i = ''Missing Limits'') stack_issue_list =
       [\<lparr>level = ''CRITICAL'', issue = ''Missing Requests'', detail = ''Container: app'',
         rec = ''Define resources.requests''\<rparr>,
        \<lparr>level = ''CRITICAL'', issue = ''Missing Limits'', detail = ''Container: proxy'',
         rec = ''Define resources.limits''\<rparr>]"
proof -
  have cs: "containers stack = Some [web_app, registry_app, db_app]"
    by (simp add: stack_def)
  from resource_rules_exclusive [OF stack_issues cs] stack_issues cs show ?thesis
    by (simp add: web_app_def registry_app_def db_app_def str_add_def)
qed

section \<open>The image tag rule\<close>

lemma contains_colon: "contains_str img '':'' \<longleftrightarrow> CHR '':'' \<in> set img"
  by (induction img) (auto simp: contains_str_def sublist_Cons_right)

text \<open>
  C10. A container whose image contains a colon somewhere and does not end with
  \<^verbatim>\<open>:latest\<close> adds nothing to the Using Latest Tag issues of its workload: they are
  the ones of the containers before and after it.
\<close>

theorem colon_counts_as_tag:
  assumes "item_issues it = Inr iss" and "containers it = Some (pre @ c # post)"
    and "image c = Some img" and "CHR '':'' \<in> set img" and "\<not> endswith img '':latest''"
  shows "filter (\<lambda>i. issue i = ''Using Latest Tag'') iss =
     concat (map (\<lambda>c. case image c of None \<Rightarrow> []
        | Some img \<Rightarrow> if latest_tag_selected img then [image_issue c img] else []) (pre @ post))"
proof -
  from filter_item_issues [OF assms(1,2), of "\<lambda>n. n = ''Using Latest Tag''" False]
  obtain r where r: "image_check (pre @ c # post) = Inr r"
    and f: "filter (\<lambda>i. issue i = ''Using Latest Tag'') iss = r"
    by auto
  have "\<not> latest_tag_selected img"
    using assms(4,5) by (simp add: latest_tag_selected_def contains_colon)
  with image_check_Inr [OF r] assms(3) f show ?thesis
    by simp
qed


theorem colon_counts_as_tag_witness:
  "item_issues stack = Inr stack_issue_list
   \<and> containers stack = Some ([web_app] @ registry_app # [db_app])
   \<and> image registry_app = Some ''registry.local:5000/app''
   \<and> CHR '':'' \<in> set ''registry.local:5000/app''
   \<and> \<not> endswith ''registry.local:5000/app'' '':latest''
   \<and> filter (\<lambda>i. issue i = ''Using Latest Tag'') stack_issue_list =
       [\<lparr>level = ''WARN'', issue = ''Using Latest Tag'', detail = ''Container: app (app:latest)'',
         rec = ''Use specific version tag''\<rparr>]"
proof -
  have cs: "containers stack = Some ([web_app] @ registry_app # [db_app])"
    by (simp add: stack_def)
  have img: "image registry_app = Some ''registry.local:5000/app''"
    by (simp add: registry_app_def)
  have colon: "CHR '':'' \<in> set ''registry.local:5000/app''"
    by simp
  have nl: "\<not> endswith ''registry.local:5000/app'' '':latest''"
    by (simp add: endswith_def suffix_to_prefix)
  from colon_counts_as_tag [OF stack_issues cs img colon nl] stack_issues cs img colon nl
  show ?thesis
    by (simp add: web_app_def db_app_def latest_tag_app_latest not_latest_postgres
        image_issue_def str_add_def)
qed

text \<open>
  C6 at the image \<^verbatim>\<open>registry.local:5000/app\<close>, which names no tag: the only colon is
  the one of the registry port, and the Deployment running it gets no Using Latest Tag
  issue. The three images named in the claim behave as it says.
\<close>

theorem untagged_registry_image_not_flagged:
  "item_issues registry_web =
     Inr [\<lparr>level = ''CRITICAL'', issue = ''Missing Limits'', detail = ''Container: proxy'',
           rec = ''Define resources.limits''\<rparr>]
   \<and> \<not> latest_tag_selected ''registry.local:5000/app''
   \<and> latest_tag_selected ''nginx''
   \<and> latest_tag_selected ''nginx:latest''
   \<and> \<not> latest_tag_selected ''nginx:1.25''"
proof -
  have "item_issues registry_web =
     Inr [\<lparr>level = ''CRITICAL'', issue = ''Missing Limits'', detail = ''Container: proxy'',
           rec = ''Define resources.limits''\<rparr>]"
    by (simp add: item_issues_def registry_web_def registry_app_def replicas_check_def
      privileged_check_def not_latest_registry liveness_check_def readiness_check_def
      resources_check_def resources_issue_def str_add_def)
  moreover have "latest_tag_selected ''nginx''" "latest_tag_selected ''nginx:latest''"
    "\<not> latest_tag_selected ''nginx:1.25''"
    by (simp_all add: latest_tag_selected_def endswith_def contains_str_def suffix_to_prefix
      sublist_Cons_right)
  ultimately show ?thesis
    using not_latest_registry by simp
qed

section \<open>Order of the findings\<close>

lemma run_audit_Cons:
  "run_audit t ex (it # its) =
     (if is_excluded (metadata_namespace it) ex then run_audit t ex its
      else case item_issues it of
             Inl e \<Rightarrow> ([], Some e)
           | Inr iss \<Rightarrow> (map (stamp t it) iss @ fst (run_audit t ex its), snd (run_audit t ex its)))"
  by (simp add: run_audit_def split: sum.splits prod.splits)

lemma run_audit_Nil: "run_audit t ex [] = ([], None)"
  by (simp add: run_audit_def)

lemma run_audit_one:
  "run_audit t ex [it] =
     (if is_excluded (metadata_namespace it) ex then ([], None)
      else case item_issues it of
             Inl e \<Rightarrow> ([], Some e)
           | Inr iss \<Rightarrow> (map (stamp t it) iss, None))"
  by (simp add: run_audit_Cons run_audit_Nil split: sum.splits)

lemma run_audit_grouped:
  "fst (run_audit t ex its) =
     concat (map (\<lambda>it. fst (run_audit t ex [it]))
                 (takeWhile (\<lambda>it. snd (run_audit t ex [it]) = None) its))"
proof (induction its)
  case Nil
  show ?case by (simp add: run_audit_Nil)
next
  case (Cons it its)
  show ?case
  proof (cases "is_excluded (metadata_namespace it) ex")
    case True
    then show ?thesis
      using Cons.IH by (simp add: run_audit_Cons [of t ex it its] run_audit_one)
  next
    case False
    then show ?thesis
      using Cons.IH
      by (cases "item_issues it") (simp_all add: run_audit_Cons [of t ex it its] run_audit_one)
  qed
qed

lemma sorted_map_const: "(\<And>x. x \<in> set xs \<Longrightarrow> f x = k) \<Longrightarrow> sorted (map f xs)"
  by (induction xs) auto

lemma item_issues_sorted:
  assumes "item_issues it = Inr iss"
  shows "sorted (map (\<lambda>i. rule_rank (issue i)) iss)"
proof -
  from item_issues_Inr [OF assms] obtain cs img where
    img: "image_check cs = Inr img" and
    iss: "iss = replicas_check it @ privileged_check cs @ img @ liveness_check cs
           @ readiness_check cs @ resources_check cs"
    by blast
  have r0: "rule_rank (issue i) = 0" if "i \<in> set (replicas_check it)" for i
    using issue_replicas_check [OF that] by (simp add: rule_rank_def)
  have r1: "rule_rank (issue i) = 1" if "i \<in> set (privileged_check cs)" for i
    using issue_privileged_check [OF that] by (simp add: rule_rank_def)
  have r2: "rule_rank (issue i) = 2" if "i \<in> set img" for i
    using issue_image_check [OF img that] by (simp add: rule_rank_def)
  have r3: "rule_rank (issue i) = 3" if "i \<in> set (liveness_check cs)" for i
    using issue_liveness_check [OF that] by (simp add: rule_rank_def)
  have r4: "rule_rank (issue i) = 4" if "i \<in> set (readiness_check cs)" for i
    using issue_readiness_check [OF that] by (simp add: rule_rank_def)
  have r5: "rule_rank (issue i) = 5" if "i \<in> set (resources_check cs)" for i
    using issue_resources_check [OF that] by (auto simp: rule_rank_def)
  have s: "sorted (map (\<lambda>i. rule_rank (issue i)) (replicas_check it))"
    "sorted (map (\<lambda>i. rule_rank (issue i)) (privileged_check cs))"
    "sorted (map (\<lambda>i. rule_rank (issue i)) img)"
    "sorted (map (\<lambda>i. rule_rank (issue i)) (liveness_check cs))"
    "sorted (map (\<lambda>i. rule_rank (issue i)) (readiness_check cs))"
    "sorted (map (\<lambda>i. rule_rank (issue i)) (resources_check cs))"
    by (rule sorted_map_const, erule r0 r1 r2 r3 r4 r5)+
  show ?thesis
    unfolding iss by (auto simp add: sorted_append s r0 r1 r2 r3 r4 r5)
qed

lemma stamp_issue: "f_issue (stamp t it i) = issue i"
  by (simp add: stamp_def)

lemma run_audit_one_sorted:
  "sorted (map (\<lambda>f. rule_rank (f_issue f)) (fst (run_audit t ex [it])))"
proof (cases "item_issues it")
  case (Inl e)
  then show ?thesis by (simp add: run_audit_one)
next
  case (Inr iss)
  from item_issues_sorted [OF Inr] show ?thesis
    by (simp add: run_audit_one Inr comp_def stamp_issue)
qed

text \<open>
  C4. The findings of a run are a function of the clock value, the exclusion list and
  the items, ordered as follows. They are the findings of the single workloads, one
  block per workload in input order (up to the first workload on which jq fails, if
  there is one). The block of one workload is sorted by the position of the rule:
  Single Replica, Privileged Container, Using Latest Tag, Missing LivenessProbe,
  Missing ReadinessProbe, then the resource rules. The findings of one per-container
  rule follow the workload's container order: they are the rule's findings for the
  containers it selects, in the order of the container list.
\<close>

theorem output_order:
  "fst (run_audit t ex its) =
     concat (map (\<lambda>it. fst (run_audit t ex [it]))
                 (takeWhile (\<lambda>it. snd (run_audit t ex [it]) = None) its))
   \<and> sorted (map (\<lambda>f. rule_rank (f_issue f)) (fst (run_audit t ex [it])))
   \<and> (\<not> is_excluded (metadata_namespace it) ex \<and> item_issues it = Inr iss
        \<and> containers it = Some cs \<longrightarrow>
      filter (\<lambda>f. f_issue f = ''Privileged Container'') (fst (run_audit t ex [it])) =
        map (\<lambda>c. stamp t it (privileged_issue c)) (filter (\<lambda>c. privileged c = Some True) cs)
      \<and> filter (\<lambda>f. f_issue f = ''Using Latest Tag'') (fst (run_audit t ex [it])) =
        concat (map (\<lambda>c. case image c of None \<Rightarrow> []
          | Some img \<Rightarrow> if latest_tag_selected img then [stamp t it (image_issue c img)] else []) cs)
      \<and> filter (\<lambda>f. f_issue f = ''Missing LivenessProbe'') (fst (run_audit t ex [it])) =
        map (\<lambda>c. stamp t it (liveness_issue c)) (filter (\<lambda>c. \<not> has_livenessProbe c) cs)
      \<and> filter (\<lambda>f. f_issue f = ''Missing ReadinessProbe'') (fst (run_audit t ex [it])) =
        map (\<lambda>c. stamp t it (readiness_issue c)) (filter (\<lambda>c. \<not> has_readinessProbe c) cs)
      \<and> filter (\<lambda>f. f_issue f = ''Missing Requests'' \<or> f_issue f = ''Missing Limits'')
          (fst (run_audit t ex [it])) =
        concat (map (\<lambda>c. map (stamp t it) (resources_issue c)) cs))"
proof (intro conjI impI)
  show "fst (run_audit t ex its) =
     concat (map (\<lambda>it. fst (run_audit t ex [it]))
                 (takeWhile (\<lambda>it. snd (run_audit t ex [it]) = None) its))"
    by (rule run_audit_grouped)
  show "sorted (map (\<lambda>f. rule_rank (f_issue f)) (fst (run_audit t ex [it])))"
    by (rule run_audit_one_sorted)
next
  assume a: "\<not> is_excluded (metadata_namespace it) ex \<and> item_issues it = Inr iss
        \<and> containers it = Some cs"
  then have ok: "item_issues it = Inr iss" and cs: "containers it = Some cs"
    by simp_all
  from a have run: "fst (run_audit t ex [it]) = map (stamp t it) iss"
    by (simp add: run_audit_one)
  have fm: "filter (\<lambda>f. Q (f_issue f)) (map (stamp t it) iss) =
      map (stamp t it) (filter (\<lambda>i. Q (issue i)) iss)" for Q
    by (simp add: filter_map comp_def stamp_issue)
  from filter_item_issues [OF ok cs, of "\<lambda>n. n = ''Privileged Container''" False]
  show "filter (\<lambda>f. f_issue f = ''Privileged Container'') (fst (run_audit t ex [it])) =
        map (\<lambda>c. stamp t it (privileged_issue c)) (filter (\<lambda>c. privileged c = Some True) cs)"
    unfolding run fm [of "\<lambda>n. n = ''Privileged Container''"]
    by (auto simp: privileged_check_def)
  from filter_item_issues [OF ok cs, of "\<lambda>n. n = ''Using Latest Tag''" False]
  obtain img where img: "image_check cs = Inr img"
    and f: "filter (\<lambda>i. issue i = ''Using Latest Tag'') iss = img"
    by auto
  have "map (stamp t it) (concat (map (\<lambda>c. case image c of None \<Rightarrow> []
          | Some img \<Rightarrow> if latest_tag_selected img then [image_issue c img] else []) cs)) =
        concat (map (\<lambda>c. case image c of None \<Rightarrow> []
          | Some img \<Rightarrow> if latest_tag_selected img then [stamp t it (image_issue c img)] else []) cs)"
    by (induction cs) (auto split: option.splits)
  with image_check_Inr [OF img] f
  show "filter (\<lambda>f. f_issue f = ''Using Latest Tag'') (fst (run_audit t ex [it])) =
        concat (map (\<lambda>c. case image c of None \<Rightarrow> []
          | Some img \<Rightarrow> if latest_tag_selected img then [stamp t it (image_issue c img)] else []) cs)"
    unfolding run fm [of "\<lambda>n. n = ''Using Latest Tag''"] by simp
  from filter_item_issues [OF ok cs, of "\<lambda>n. n = ''Missing LivenessProbe''" False]
  show "filter (\<lambda>f. f_issue f = ''Missing LivenessProbe'') (fst (run_audit t ex [it])) =
        map (\<lambda>c. stamp t it (liveness_issue c)) (filter (\<lambda>c. \<not> has_livenessProbe c) cs)"
    unfolding run fm [of "\<lambda>n. n = ''Missing LivenessProbe''"]
    by (auto simp: liveness_check_def)
  from filter_item_issues [OF ok cs, of "\<lambda>n. n = ''Missing ReadinessProbe''" False]
  show "filter (\<lambda>f. f_issue f = ''Missing ReadinessProbe'') (fst (run_audit t ex [it])) =
        map (\<lambda>c. stamp t it (readiness_issue c)) (filter (\<lambda>c. \<not> has_readinessProbe c) cs)"
    unfolding run fm [of "\<lambda>n. n = ''Missing ReadinessProbe''"]
    by (auto simp: readiness_check_def)
  from filter_item_issues [OF ok cs, of "\<lambda>n. n = ''Missing Requests'' \<or> n = ''Missing Limits''" True]
  show "filter (\<lambda>f. f_issue f = ''Missing Requests'' \<or> f_issue f = ''Missing Limits'')
          (fst (run_audit t ex [it])) =
        concat (map (\<lambda>c. map (stamp t it) (resources_issue c)) cs)"
    unfolding run fm [of "\<lambda>n. n = ''Missing Requests'' \<or> n = ''Missing Limits''"]
    by (auto simp: resources_check_def map_concat comp_def)
qed

theorem output_order_witness:
  "\<not> is_excluded (metadata_namespace stack) []
   \<and> item_issues stack = Inr stack_issue_list
   \<and> containers stack = Some [web_app, registry_app, db_app]
   \<and> map f_detail (filter (\<lambda>f. f_issue f = ''Missing ReadinessProbe'')
        (fst (run_audit ''2024-01-01T00:00:00Z'' [] [stack]))) = [''Container: app'', ''Container: db'']"
proof -
  have cs: "containers stack = Some [web_app, registry_app, db_app]"
    by (simp add: stack_def)
  have n: "\<not> is_excluded (metadata_namespace stack) []"
    by (rule not_excluded_empty)
  have "filter (\<lambda>f. f_issue f = ''Missing ReadinessProbe'')
          (fst (run_audit ''2024-01-01T00:00:00Z'' [] [stack])) =
        map (\<lambda>c. stamp ''2024-01-01T00:00:00Z'' stack (readiness_issue c))
          (filter (\<lambda>c. \<not> has_readinessProbe c) [web_app, registry_app, db_app])"
    using output_order [of "''2024-01-01T00:00:00Z''" "[]" "[stack]" stack stack_issue_list
      "[web_app, registry_app, db_app]"] n stack_issues cs
    by blast
  then show ?thesis
    using n stack_issues cs
    by (simp add: web_app_def registry_app_def db_app_def stamp_def readiness_issue_def str_add_def)
qed

section \<open>Absent fields and jq errors\<close>

lemma image_check_ok_iff:
  "(\<exists>r. image_check cs = Inr r) \<longleftrightarrow> list_all (\<lambda>c. image c \<noteq> None) cs"
  by (induction cs) (auto split: option.splits sum.splits)

lemma item_issues_ok_iff:
  "(\<exists>iss. item_issues it = Inr iss) \<longleftrightarrow>
   (\<exists>cs. containers it = Some cs \<and> list_all (\<lambda>c. image c \<noteq> None) cs)"
proof (cases "containers it")
  case None
  then show ?thesis by (simp add: item_issues_def)
next
  case (Some cs)
  show ?thesis
  proof (cases "image_check cs")
    case (Inl e)
    with image_check_ok_iff [of cs] Some show ?thesis
      by (simp add: item_issues_def)
  next
    case (Inr r)
    with image_check_ok_iff [of cs] Some show ?thesis
      by (simp add: item_issues_def)
  qed
qed

lemma nameless_issues: "item_issues nameless_web = Inr web_issue_list"
  by (simp add: item_issues_def nameless_web_def web_def web_app_def web_issue_list_def
      replicas_check_def privileged_check_def latest_tag_app_latest image_issue_def
      liveness_check_def liveness_issue_def readiness_check_def readiness_issue_def
      resources_check_def resources_issue_def str_add_def)

lemma broken_issues: "item_issues broken_web = Inl Cannot_iterate_over_null"
  by (simp add: item_issues_def broken_web_def)

lemma run_web: "run_audit t [] [web] = (map (stamp t web) web_issue_list, None)"
  by (simp add: run_audit_one not_excluded_empty web_issues)

lemma run_nameless_web:
  "run_audit t [] [nameless_web, web] =
     (map (stamp t nameless_web) web_issue_list @ map (stamp t web) web_issue_list, None)"
  by (simp add: run_audit_Cons [of t "[]" nameless_web] not_excluded_empty nameless_issues run_web)

lemma run_broken_web: "run_audit t [] [broken_web, web] = ([], Some Cannot_iterate_over_null)"
  by (simp add: run_audit_Cons [of t "[]" broken_web] not_excluded_empty broken_issues)

text \<open>
  C9, as the code has it. The filter has no step that rejects a workload. A workload
  that is not excluded is evaluated whether or not its kind, namespace and name are
  present: when its container list is present and every container has an image, its
  findings are produced (the absent fields are \<^verbatim>\<open>null\<close> in them) and the run goes on
  with the remaining workloads; otherwise jq raises an error, and the run ends there
  with no finding for this workload or for any later one.
\<close>

theorem absent_fields_handling:
  assumes "\<not> is_excluded (metadata_namespace it) ex"
  shows "run_audit t ex (it # rest) =
     (case item_issues it of
        Inl e \<Rightarrow> ([], Some e)
      | Inr iss \<Rightarrow> (map (stamp t it) iss @ fst (run_audit t ex rest), snd (run_audit t ex rest)))
   \<and> ((\<exists>iss. item_issues it = Inr iss) \<longleftrightarrow>
      (\<exists>cs. containers it = Some cs \<and> list_all (\<lambda>c. image c \<noteq> None) cs))"
  using assms by (simp add: run_audit_Cons item_issues_ok_iff)

theorem absent_fields_handling_witness:
  "\<not> is_excluded (metadata_namespace nameless_web) []
   \<and> run_audit ''2024-01-01T00:00:00Z'' [] [nameless_web, web] =
       (map (stamp ''2024-01-01T00:00:00Z'' nameless_web) web_issue_list
        @ map (stamp ''2024-01-01T00:00:00Z'' web) web_issue_list, None)
   \<and> metadata_name nameless_web = None"
proof -
  have n: "\<not> is_excluded (metadata_namespace nameless_web) []"
    by (rule not_excluded_empty)
  have sel: "metadata_name nameless_web = None"
    by (simp add: nameless_web_def)
  from absent_fields_handling [OF n, where t = "''2024-01-01T00:00:00Z''" and rest = "[web]"]
  show ?thesis
    by (simp add: n nameless_issues run_web sel)
qed

text \<open>
  C9 as stated would make a run on a workload without a name, or without a container
  list, followed by \<^verbatim>\<open>web\<close> yield just the findings of \<^verbatim>\<open>web\<close>. The first run also
  yields findings for the nameless workload; the second yields nothing at all.
\<close>

theorem absent_fields_counterexample:
  "fst (run_audit ''2024-01-01T00:00:00Z'' [] [nameless_web, web])
     \<noteq> fst (run_audit ''2024-01-01T00:00:00Z'' [] [web])
   \<and> fst (run_audit ''2024-01-01T00:00:00Z'' [] [broken_web, web])
     \<noteq> fst (run_audit ''2024-01-01T00:00:00Z'' [] [web])"
proof -
  have a: "length (fst (run_audit ''2024-01-01T00:00:00Z'' [] [nameless_web, web])) = 10"
    by (simp add: run_nameless_web web_issue_list_def)
  have b: "length (fst (run_audit ''2024-01-01T00:00:00Z'' [] [web])) = 5"
    by (simp add: run_web web_issue_list_def)
  have c: "length (fst (run_audit ''2024-01-01T00:00:00Z'' [] [broken_web, web])) = 0"
    by (simp add: run_broken_web)
  have "fst (run_audit ''2024-01-01T00:00:00Z'' [] [nameless_web, web])
     \<noteq> fst (run_audit ''2024-01-01T00:00:00Z'' [] [web])"
  proof
    assume "fst (run_audit ''2024-01-01T00:00:00Z'' [] [nameless_web, web])
      = fst (run_audit ''2024-01-01T00:00:00Z'' [] [web])"
    with a b show False by simp
  qed
  moreover have "fst (run_audit ''2024-01-01T00:00:00Z'' [] [broken_web, web])
     \<noteq> fst (run_audit ''2024-01-01T00:00:00Z'' [] [web])"
  proof
    assume "fst (run_audit ''2024-01-01T00:00:00Z'' [] [broken_web, web])
      = fst (run_audit ''2024-01-01T00:00:00Z'' [] [web])"
    with c b show False by simp
  qed
  ultimately show ?thesis by simp
qed

section \<open>The CSV report\<close>

lemma output_loop_prefix: "prefix f (output_loop ls f)"
proof (induction ls arbitrary: f)
  case Nil
  show ?case by simp
next
  case (Cons l ls)
  have "prefix f (echo_append (csv_row (read_vars l)) f)"
    by (simp add: echo_append_def)
  with Cons.IH [of "echo_append (csv_row (read_vars l)) f"] show ?case
    by (auto intro: prefix_order.trans)
qed

lemma latest_tag_comma: "latest_tag_selected ''my,app''"
  by (simp add: latest_tag_selected_def contains_str_def sublist_Cons_right)

lemma comma_run: "run_audit ''2024-01-01T00:00:00Z'' [] [comma_web] = ([comma_finding], None)"
  by (simp add: run_audit_one not_excluded_empty item_issues_def comma_web_def comma_app_def
      replicas_check_def privileged_check_def liveness_check_def readiness_check_def
      resources_check_def resources_issue_def latest_tag_comma image_issue_def str_add_def
      stamp_def comma_finding_def)

lemma comma_csv_row: "csv_row (read_vars (tsv comma_finding)) = comma_row"
  by code_simp

lemma comma_columns: "csv_columns False comma_row = 8"
  by code_simp

lemma header_columns: "csv_columns False csv_header = 7"
  by code_simp


text \<open>
  C2 at a finding whose detail contains a comma. Every report starts with the header
  line, which has seven columns. The Deployment whose container image is \<^verbatim>\<open>my,app\<close>
  gets one finding; its line is written without any double quote and reads as eight
  columns.
\<close>

theorem csv_comma_not_quoted:
  "audit_script ''2024-01-01T00:00:00Z'' [] [comma_web] old =
     csv_header @ [newline] @ comma_row @ [newline]
   \<and> csv_columns False csv_header = 7
   \<and> csv_columns False comma_row = 8
   \<and> CHR 0x22 \<notin> set comma_row
   \<and> prefix (csv_header @ [newline]) (audit_script t ex its old)"
proof -
  have "audit_script ''2024-01-01T00:00:00Z'' [] [comma_web] old =
     csv_header @ [newline] @ comma_row @ [newline]"
    by (simp add: audit_script_def comma_run comma_csv_row echo_to_def echo_append_def)
  moreover have "CHR 0x22 \<notin> set comma_row"
    by (simp add: comma_row_def)
  moreover have "prefix (csv_header @ [newline]) (audit_script t ex its old)"
    unfolding audit_script_def echo_to_def by (rule output_loop_prefix)
  ultimately show ?thesis
    using header_columns comma_columns by simp
qed

section \<open>Two runs\<close>

lemma audit_items_time: "list_all (\<lambda>f. f_time f = t) (fst (audit_items t its))"
  by (induction its) (auto simp: stamp_def list_all_iff split: sum.splits prod.splits)

text \<open>
  C8. Two runs on the same items with the same exclusion list and the same clock value
  leave the same report file, whatever the file held before each run, and have the
  same JSON projection; every finding of a run carries the clock value of that run.
\<close>

theorem two_run_determinism:
  assumes "t1 = t2" and "ex1 = ex2" and "its1 = its2"
  shows "audit_script t1 ex1 its1 old1 = audit_script t2 ex2 its2 old2
   \<and> json_projection (fst (run_audit t1 ex1 its1)) = json_projection (fst (run_audit t2 ex2 its2))
   \<and> list_all (\<lambda>f. f_time f = t1) (fst (run_audit t1 ex1 its1))"
  using assms by (simp add: audit_script_def echo_to_def run_audit_def audit_items_time)

theorem two_run_determinism_witness:
  "audit_script ''2024-01-01T00:00:00Z'' ''kube-system'' [web, stack] ''stale report''
     = audit_script ''2024-01-01T00:00:00Z'' ''kube-system'' [web, stack] []
   \<and> json_projection (fst (run_audit ''2024-01-01T00:00:00Z'' ''kube-system'' [web, stack]))
     = json_projection (fst (run_audit ''2024-01-01T00:00:00Z'' ''kube-system'' [web, stack]))
   \<and> list_all (\<lambda>f. f_time f = ''2024-01-01T00:00:00Z'')
       (fst (run_audit ''2024-01-01T00:00:00Z'' ''kube-system'' [web, stack]))"
  by (rule two_run_determinism [OF refl refl refl])

end
